theory Spec2Isabelle
  imports Main "HOL-Library.Sublist" "HOL-Library.Char_ord"
begin

section \<open>Data model of the Taxonomy component\<close>

text \<open>
  \<^verbatim>\<open>type TaxonomyPath = string[]\<close> and
  \<^verbatim>\<open>type TaxonomyItem = { label, path, depth, children?, custom? }\<close>.
  An optional field is an \<open>option\<close>; \<open>depth\<close> is a JavaScript number, taken here as an
  integer (the component only compares it, subtracts one and uses it as an index).
\<close>

type_synonym TaxonomyPath = "string list"

datatype TaxonomyItem =
  TaxonomyItem
    (label: string)
    (path: TaxonomyPath)
    (depth: int)
    (children: "TaxonomyItem list option")
    (custom: "bool option")

text \<open>The object spread \<^verbatim>\<open>{ ...item, children: cs }\<close>.\<close>

definition spread_children :: "TaxonomyItem \<Rightarrow> TaxonomyItem list \<Rightarrow> TaxonomyItem" where
  "spread_children item cs =
     TaxonomyItem (label item) (path item) (depth item) (Some cs) (custom item)"

text \<open>\<^verbatim>\<open>item.children?.forEach(f)\<close> visits nothing when the field is absent.\<close>

definition children_or_empty :: "TaxonomyItem \<Rightarrow> TaxonomyItem list" where
  "children_or_empty item = (case children item of None \<Rightarrow> [] | Some cs \<Rightarrow> cs)"

record TaxonomyOptions =
  leafsOnly :: "bool option"
  showFullPath :: "bool option"
  pathSeparator :: "string option"
  maxUsages :: "int option"
  placeholder :: "string option"

record TaxonomyOptionsContextValue = TaxonomyOptions +
  maxUsagesReached :: "bool option"

text \<open>JavaScript truthiness of an optional boolean and of an optional (integer) number.\<close>

definition truthy_bool :: "bool option \<Rightarrow> bool" where
  "truthy_bool b = (case b of None \<Rightarrow> False | Some v \<Rightarrow> v)"

definition truthy_num :: "int option \<Rightarrow> bool" where
  "truthy_num n = (case n of None \<Rightarrow> False | Some v \<Rightarrow> v \<noteq> 0)"

section \<open>Path utilities\<close>

text \<open>
  Modelled from the spec: \<^verbatim>\<open>isArraysEqual\<close> is imported from \<^verbatim>\<open>utils/utilities\<close>, which is not
  among the sources. The specification's \<^verbatim>\<open>pathsEqual\<close>: true iff both sequences have the
  same length and identical elements at every index, in order.
\<close>

definition isArraysEqual :: "string list \<Rightarrow> string list \<Rightarrow> bool" where
  "isArraysEqual a b =
     (length a = length b \<and> list_all (\<lambda>i. a ! i = b ! i) [0..<length a])"

text \<open>
  \<^verbatim>\<open>function isSubArray(item, parent) {
    if (item.length <= parent.length) return false;
    return parent.every((n, i) => item[i] === n); }\<close>
  Every index read in \<open>item\<close> is below \<open>length parent\<close>, hence in range.
\<close>

definition isSubArray :: "string list \<Rightarrow> string list \<Rightarrow> bool" where
  "isSubArray item parent =
     (if length item \<le> length parent then False
      else list_all (\<lambda>i. item ! i = parent ! i) [0..<length parent])"

section \<open>Flattening\<close>

text \<open>
  \<^verbatim>\<open>const flatten = []; const visitItem = item => { flatten.push(item);
     item.children?.forEach(visitItem); }; items.forEach(visitItem); return flatten;\<close>
  The array being filled is passed through the calls.
\<close>

fun visitItem :: "TaxonomyItem \<Rightarrow> TaxonomyItem list \<Rightarrow> TaxonomyItem list" where
  "visitItem (TaxonomyItem l p k cs c) acc =
     fold visitItem (case cs of None \<Rightarrow> [] | Some xs \<Rightarrow> xs) (acc @ [TaxonomyItem l p k cs c])"

definition flatten :: "TaxonomyItem list \<Rightarrow> TaxonomyItem list" where
  "flatten items = fold visitItem items []"

section \<open>Rebuilding a filtered forest\<close>

text \<open>
  \<^verbatim>\<open>filterTreeByPredicate(flatten, predicate)\<close> walks the flat array from its last entry to
  its first, with three variables: \<open>roots\<close>, the array of arrays \<open>childs\<close> and the number
  \<open>d\<close>. \<open>childs\<close> is only ever indexed (read, assigned), so it is a partial map from
  indices to arrays: an index never assigned reads as \<^verbatim>\<open>undefined\<close>, here \<open>None\<close>.
  Calling \<^verbatim>\<open>unshift\<close> on \<^verbatim>\<open>undefined\<close> throws a \<^verbatim>\<open>TypeError\<close>.
\<close>

datatype error = TypeError

type_synonym filter_state = "TaxonomyItem list \<times> (int \<rightharpoonup> TaxonomyItem list) \<times> int"

text \<open>One pass through the body of the \<^verbatim>\<open>for\<close> loop, for the entry \<open>item\<close>.\<close>

fun loop_body :: "(TaxonomyItem \<Rightarrow> bool) \<Rightarrow> TaxonomyItem \<Rightarrow> filter_state \<Rightarrow> error + filter_state" where
  "loop_body predicate item (roots, childs, d) =
     (if depth item = d then
        (let adjusted = spread_children item (case childs d of None \<Rightarrow> [] | Some cs \<Rightarrow> cs);
             childs1 = childs(d \<mapsto> [])
         in if d \<noteq> 0 then
              (case childs1 (d - 1) of
                 None \<Rightarrow> Inl TypeError
               | Some cs \<Rightarrow> Inr (roots, childs1(d - 1 \<mapsto> adjusted # cs), d - 1))
            else Inr (adjusted # roots, childs1, d - 1))
      else if predicate item then
        (let adjusted = spread_children item []
         in if depth item = 0 then Inr (adjusted # roots, childs, d)
            else
              (let d1 = depth item - 1;
                   childs1 = (case childs d1 of None \<Rightarrow> childs(d1 \<mapsto> []) | Some cs \<Rightarrow> childs)
               in case childs1 d1 of
                    None \<Rightarrow> Inl TypeError
                  | Some cs \<Rightarrow> Inr (roots, childs1(d1 \<mapsto> adjusted # cs), d1)))
      else Inr (roots, childs, d))"

text \<open>
  \<^verbatim>\<open>for (let i = flatten.length; i--; ) { const item = flatten[i]; ... }\<close>:
  with \<open>Suc i\<close> entries left, the body runs on \<open>flat ! i\<close>; a throw ends the loop.
\<close>

fun loop :: "(TaxonomyItem \<Rightarrow> bool) \<Rightarrow> TaxonomyItem list \<Rightarrow> nat \<Rightarrow> filter_state \<Rightarrow> error + filter_state" where
  "loop predicate flat 0 st = Inr st"
| "loop predicate flat (Suc i) st =
     (case loop_body predicate (flat ! i) st of
        Inl e \<Rightarrow> Inl e
      | Inr st' \<Rightarrow> loop predicate flat i st')"

definition filterTreeByPredicate ::
  "TaxonomyItem list \<Rightarrow> (TaxonomyItem \<Rightarrow> bool) \<Rightarrow> error + TaxonomyItem list" where
  "filterTreeByPredicate flat predicate =
     (case loop predicate flat (length flat) ([], Map.empty, - 1) of
        Inl e \<Rightarrow> Inl e
      | Inr (roots, childs, d) \<Rightarrow> Inr roots)"

text \<open>
  \<^verbatim>\<open>const predicate = item => item.label.toLocaleLowerCase().includes(search);
     const list = search ? filterTreeByPredicate(flatten, predicate) : items;\<close>
  The two string methods are built-ins of the JavaScript runtime. They are given here
  for strings of ASCII characters: lower-casing sets bit 5 of the letters \<open>A\<close> to \<open>Z\<close>,
  and \<open>includes_str s sub\<close> holds iff \<open>sub\<close> occurs in \<open>s\<close> as a contiguous substring.
  The empty search string is falsy.
\<close>

definition toLocaleLowerCase :: "string \<Rightarrow> string" where
  "toLocaleLowerCase s =
     map (\<lambda>c. if CHR ''A'' \<le> c \<and> c \<le> CHR ''Z''
              then (case c of Char b0 b1 b2 b3 b4 b5 b6 b7 \<Rightarrow> Char b0 b1 b2 b3 b4 True b6 b7)
              else c) s"

fun includes_str :: "string \<Rightarrow> string \<Rightarrow> bool" where
  "includes_str [] sub = (sub = [])"
| "includes_str (c # cs) sub = (prefix sub (c # cs) \<or> includes_str cs sub)"

definition Dropdown_predicate :: "string \<Rightarrow> TaxonomyItem \<Rightarrow> bool" where
  "Dropdown_predicate search item = includes_str (toLocaleLowerCase (label item)) search"

definition Dropdown_list :: "string \<Rightarrow> TaxonomyItem list \<Rightarrow> error + TaxonomyItem list" where
  "Dropdown_list search items =
     (if search \<noteq> [] then filterTreeByPredicate (flatten items) (Dropdown_predicate search)
      else Inr items)"

section \<open>Selection\<close>

text \<open>
  \<^verbatim>\<open>const setSelected = (path, value) => { const newSelected = value
     ? [...selected, path] : selected.filter(current => !isArraysEqual(current, path)); ... }\<close>
  The new array replaces the component's state and is reported through \<^verbatim>\<open>onChange\<close>; the
  function below returns it.
\<close>

definition setSelected :: "TaxonomyPath list \<Rightarrow> TaxonomyPath \<Rightarrow> bool \<Rightarrow> TaxonomyPath list" where
  "setSelected selected p v =
     (if v then selected @ [p]
      else filter (\<lambda>current. \<not> isArraysEqual current p) selected)"

text \<open>The values computed by \<^verbatim>\<open>Item\<close> for one rendered item.\<close>

definition checked :: "TaxonomyPath list \<Rightarrow> TaxonomyPath \<Rightarrow> bool" where
  "checked selected p = list_ex (\<lambda>current. isArraysEqual current p) selected"

definition isChildSelected :: "TaxonomyPath list \<Rightarrow> TaxonomyPath \<Rightarrow> bool" where
  "isChildSelected selected p = list_ex (\<lambda>current. isSubArray current p) selected"

definition hasChilds :: "TaxonomyItem \<Rightarrow> bool" where
  "hasChilds item = (case children item of None \<Rightarrow> False | Some cs \<Rightarrow> length cs \<noteq> 0)"

definition onlyLeafsAllowed :: "TaxonomyOptionsContextValue \<Rightarrow> TaxonomyItem \<Rightarrow> bool" where
  "onlyLeafsAllowed ctx item = (truthy_bool (leafsOnly ctx) \<and> hasChilds item)"

definition limitReached ::
  "TaxonomyOptionsContextValue \<Rightarrow> TaxonomyPath list \<Rightarrow> TaxonomyItem \<Rightarrow> bool" where
  "limitReached ctx selected item =
     (truthy_bool (maxUsagesReached ctx) \<and> \<not> checked selected (path item))"

definition disabled ::
  "TaxonomyOptionsContextValue \<Rightarrow> TaxonomyPath list \<Rightarrow> TaxonomyItem \<Rightarrow> bool" where
  "disabled ctx selected item =
     (onlyLeafsAllowed ctx item \<or> limitReached ctx selected item)"

text \<open>
  \<^verbatim>\<open>const setIndeterminate = el => { if (!el) return;
     if (checked) el.indeterminate = false; else el.indeterminate = isChildSelected; }\<close>
  The element is the checkbox, of which only the \<open>indeterminate\<close> property matters here;
  the callback receives \<^verbatim>\<open>null\<close> when the element is unmounted.
\<close>

record checkbox =
  indeterminate :: bool

definition setIndeterminate :: "bool \<Rightarrow> bool \<Rightarrow> checkbox option \<Rightarrow> checkbox option" where
  "setIndeterminate is_checked child_selected el =
     (case el of
        None \<Rightarrow> None
      | Some e \<Rightarrow>
          if is_checked then Some (e\<lparr>indeterminate := False\<rparr>)
          else Some (e\<lparr>indeterminate := child_selected\<rparr>))"

section \<open>Resolved options\<close>

text \<open>
  \<^verbatim>\<open>const maxUsagesReached = options.maxUsages ? selected.length >= options.maxUsages : false;
     return { ...options, maxUsagesReached };\<close>
\<close>

definition optionsWithMaxUsages ::
  "TaxonomyOptions \<Rightarrow> TaxonomyPath list \<Rightarrow> TaxonomyOptionsContextValue" where
  "optionsWithMaxUsages options selected =
     (let reached =
        (if truthy_num (maxUsages options)
         then (case maxUsages options of None \<Rightarrow> False | Some m \<Rightarrow> int (length selected) \<ge> m)
         else False)
      in \<lparr> leafsOnly = leafsOnly options, showFullPath = showFullPath options,
           pathSeparator = pathSeparator options, maxUsages = maxUsages options,
           placeholder = placeholder options, maxUsagesReached = Some reached \<rparr>)"

section \<open>Reference notions\<close>

text \<open>
  The notions the properties are stated with, each written from the words of the
  specification and independent of the functions above.

  Pre-order traversal: a node, then the traversals of its children in their order; the
  number of nodes of a tree; the traversal with the nesting level of every node (roots
  at level \<open>n\<close>); and the data-model invariant that every \<open>depth\<close> field is the number of
  ancestors of its node.
\<close>

fun preorder :: "TaxonomyItem \<Rightarrow> TaxonomyItem list" where
  "preorder (TaxonomyItem l p k cs c) =
     TaxonomyItem l p k cs c # concat (map preorder (case cs of None \<Rightarrow> [] | Some xs \<Rightarrow> xs))"

fun node_count :: "TaxonomyItem \<Rightarrow> nat" where
  "node_count (TaxonomyItem l p k cs c) =
     Suc (sum_list (map node_count (case cs of None \<Rightarrow> [] | Some xs \<Rightarrow> xs)))"

fun with_level :: "int \<Rightarrow> TaxonomyItem \<Rightarrow> (TaxonomyItem \<times> int) list" where
  "with_level n (TaxonomyItem l p k cs c) =
     (TaxonomyItem l p k cs c, n) #
       concat (map (with_level (n + 1)) (case cs of None \<Rightarrow> [] | Some xs \<Rightarrow> xs))"

fun depth_consistent :: "int \<Rightarrow> TaxonomyItem \<Rightarrow> bool" where
  "depth_consistent n (TaxonomyItem l p k cs c) =
     (k = n \<and> list_all (depth_consistent (n + 1)) (case cs of None \<Rightarrow> [] | Some xs \<Rightarrow> xs))"

text \<open>
  The filtered forest of the specification: a node is kept iff the predicate holds of it
  or of one of its descendants; the kept nodes keep their order and nesting, each with
  the array of its kept children.
\<close>

fun keeps :: "(TaxonomyItem \<Rightarrow> bool) \<Rightarrow> TaxonomyItem \<Rightarrow> bool" where
  "keeps predicate (TaxonomyItem l p k cs c) =
     (predicate (TaxonomyItem l p k cs c) \<or>
      list_ex (keeps predicate) (case cs of None \<Rightarrow> [] | Some xs \<Rightarrow> xs))"

fun prune :: "(TaxonomyItem \<Rightarrow> bool) \<Rightarrow> TaxonomyItem \<Rightarrow> TaxonomyItem" where
  "prune predicate (TaxonomyItem l p k cs c) =
     TaxonomyItem l p k
       (Some (map (prune predicate)
          (filter (keeps predicate) (case cs of None \<Rightarrow> [] | Some xs \<Rightarrow> xs)))) c"

definition prune_forest :: "(TaxonomyItem \<Rightarrow> bool) \<Rightarrow> TaxonomyItem list \<Rightarrow> TaxonomyItem list" where
  "prune_forest predicate items = map (prune predicate) (filter (keeps predicate) items)"

text \<open>
  The loop body applied to a list of entries in the order the loop visits them; the loop
  of \<open>filterTreeByPredicate\<close> visits the reversed flat sequence.
\<close>

fun run :: "(TaxonomyItem \<Rightarrow> bool) \<Rightarrow> TaxonomyItem list \<Rightarrow> filter_state \<Rightarrow> error + filter_state" where
  "run predicate [] st = Inr st"
| "run predicate (item # rest) st =
     (case loop_body predicate item st of
        Inl e \<Rightarrow> Inl e
      | Inr st' \<Rightarrow> run predicate rest st')"

text \<open>
  The state of the loop before it visits (backwards) a forest whose roots are at level
  \<open>k\<close>: the level \<open>d\<close> it waits for is above the forest, and every array of \<open>childs\<close>
  below that level is empty or unassigned.
\<close>

definition pending_ok :: "int \<Rightarrow> filter_state \<Rightarrow> bool" where
  "pending_ok k st =
     (case st of (roots, childs, d) \<Rightarrow>
        - 1 \<le> d \<and> d < k \<and> (\<forall>j>d. childs j = None \<or> childs j = Some []))"

text \<open>
  The state \<open>st'\<close> is the state \<open>st\<close> with the forest \<open>F\<close> (of level \<open>k\<close>) put in front of
  what waits for the parent: \<open>roots\<close> at level 0, \<^verbatim>\<open>childs[k - 1]\<close> otherwise, and the loop
  then waits for that parent.
\<close>

definition attached :: "int \<Rightarrow> TaxonomyItem list \<Rightarrow> filter_state \<Rightarrow> filter_state \<Rightarrow> bool" where
  "attached k F st st' =
     (case st of (roots, childs, d) \<Rightarrow>
      case st' of (roots', childs', d') \<Rightarrow>
        if F = [] then st' = st
        else d' = k - 1 \<and>
             (\<forall>j<k - 1. childs' j = childs j) \<and>
             (\<forall>j>k - 1. childs' j = None \<or> childs' j = Some []) \<and>
             (if k = 0 then roots' = F @ roots \<and> childs' (- 1) = childs (- 1)
              else roots' = roots \<and>
                   childs' (k - 1) =
                     Some (F @ (case childs (k - 1) of None \<Rightarrow> [] | Some cs \<Rightarrow> cs))))"

text \<open>No two elements of a selected list are path-equal.\<close>

fun path_distinct :: "TaxonomyPath list \<Rightarrow> bool" where
  "path_distinct [] = True"
| "path_distinct (p # ps) = (\<not> list_ex (\<lambda>q. isArraysEqual q p) ps \<and> path_distinct ps)"

text \<open>The path \<open>p\<close> identifies a node of the forest that has no children.\<close>

definition leaf_path :: "TaxonomyItem list \<Rightarrow> TaxonomyPath \<Rightarrow> bool" where
  "leaf_path items p =
     list_ex (\<lambda>item. isArraysEqual (path item) p \<and> \<not> hasChilds item) (flatten items)"

text \<open>
  The selected lists that the rendered component can reach from \<open>init\<close>. \<^verbatim>\<open>Dropdown\<close> renders
  an \<^verbatim>\<open>Item\<close> for every entry of \<open>list\<close> and, through \<^verbatim>\<open>item.children.map\<close>, for every node
  below it; during a search these are the copies made by \<open>filterTreeByPredicate\<close>, and
  \<^verbatim>\<open>Item\<close> computes \<open>disabled\<close> from the item it is given. The checkbox of a rendered item
  calls \<^verbatim>\<open>setSelected(item.path, e.currentTarget.checked)\<close>, and an \<^verbatim>\<open>input\<close> element with
  the \<^verbatim>\<open>disabled\<close> attribute receives no change event; the button of an entry of
  \<^verbatim>\<open>SelectedList\<close> calls \<^verbatim>\<open>setSelected(path, false)\<close>. The search string is the lower-cased
  content of the search field (\<^verbatim>\<open>onInput\<close>), and the options context is recomputed from
  the current selected list at every rendering.
\<close>

inductive reachable ::
  "TaxonomyOptions \<Rightarrow> TaxonomyItem list \<Rightarrow> TaxonomyPath list \<Rightarrow> TaxonomyPath list \<Rightarrow> bool"
  for options items init where
  start: "reachable options items init init"
| toggle: "reachable options items init selected \<Longrightarrow>
     Dropdown_list (toLocaleLowerCase input) items = Inr list \<Longrightarrow>
     item \<in> set (flatten list) \<Longrightarrow>
     \<not> disabled (optionsWithMaxUsages options selected) selected item \<Longrightarrow>
     reachable options items init (setSelected selected (path item) v)"
| remove: "reachable options items init selected \<Longrightarrow>
     reachable options items init (setSelected selected p False)"

section \<open>Concrete inputs\<close>

text \<open>The tree \<open>A > [A1, A2 > [A2a]]\<close> of the specification's scenario.\<close>

definition scenario_A2a :: TaxonomyItem where
  "scenario_A2a = TaxonomyItem ''A2a'' [''A'', ''A2'', ''A2a''] 2 None None"

definition scenario_A2 :: TaxonomyItem where
  "scenario_A2 = TaxonomyItem ''A2'' [''A'', ''A2''] 1 (Some [scenario_A2a]) None"

definition scenario_A1 :: TaxonomyItem where
  "scenario_A1 = TaxonomyItem ''A1'' [''A'', ''A1''] 1 None None"

definition scenario_A :: TaxonomyItem where
  "scenario_A = TaxonomyItem ''A'' [''A''] 0 (Some [scenario_A1, scenario_A2]) None"

text \<open>A chain \<open>A > B > C\<close>.\<close>

definition chain_C :: TaxonomyItem where
  "chain_C = TaxonomyItem ''C'' [''A'', ''B'', ''C''] 2 None None"

definition chain_B :: TaxonomyItem where
  "chain_B = TaxonomyItem ''B'' [''A'', ''B''] 1 (Some [chain_C]) None"

definition chain_A :: TaxonomyItem where
  "chain_A = TaxonomyItem ''A'' [''A''] 0 (Some [chain_B]) None"

text \<open>A forest of two roots, \<open>P > Q > R\<close> and \<open>S\<close>.\<close>

definition forest_R :: TaxonomyItem where
  "forest_R = TaxonomyItem ''R'' [''P'', ''Q'', ''R''] 2 None None"

definition forest_Q :: TaxonomyItem where
  "forest_Q = TaxonomyItem ''Q'' [''P'', ''Q''] 1 (Some [forest_R]) None"

definition forest_P :: TaxonomyItem where
  "forest_P = TaxonomyItem ''P'' [''P''] 0 (Some [forest_Q]) None"

definition forest_S :: TaxonomyItem where
  "forest_S = TaxonomyItem ''S'' [''S''] 0 None None"

text \<open>The tree \<open>Animals > [Birds]\<close>.\<close>

definition animals :: TaxonomyItem where
  "animals =
     TaxonomyItem ''Animals'' [''Animals''] 0
       (Some [TaxonomyItem ''Birds'' [''Animals'', ''Birds''] 1 None None]) None"

text \<open>A parent with one child, and options with \<open>leafsOnly\<close> and a cap of two.\<close>

definition example_tree :: TaxonomyItem where
  "example_tree =
     TaxonomyItem ''A'' [''A''] 0 (Some [TaxonomyItem ''A1'' [''A'', ''A1''] 1 None None]) None"

definition example_options :: TaxonomyOptions where
  "example_options =
     \<lparr> leafsOnly = Some True, showFullPath = None, pathSeparator = None,
       maxUsages = Some 2, placeholder = None \<rparr>"

lemmas scenario_defs = scenario_A_def scenario_A1_def scenario_A2_def scenario_A2a_def

lemmas chain_defs = chain_A_def chain_B_def chain_C_def

lemmas forest_defs = forest_P_def forest_Q_def forest_R_def forest_S_def

section \<open>Path utilities and selection state\<close>

lemma isArraysEqual_iff: "isArraysEqual a b \<longleftrightarrow> a = b"
  using list_eq_iff_nth_eq [of a b] by (auto simp: isArraysEqual_def list_all_iff)

lemma isSubArray_iff: "isSubArray item parent \<longleftrightarrow> strict_prefix parent item"
proof
  assume h: "isSubArray item parent"
  then have len: "length parent < length item"
    and eq: "\<forall>i<length parent. item ! i = parent ! i"
    by (auto simp: isSubArray_def list_all_iff split: if_splits)
  have "take (length parent) item = parent"
    using len eq nth_take_lemma [of "length parent" "take (length parent) item" parent] by simp
  then have "prefix parent item" by (metis take_is_prefix)
  with len show "strict_prefix parent item" by (auto simp: strict_prefix_def)
next
  assume h: "strict_prefix parent item"
  then obtain zs where z: "item = parent @ zs" "zs \<noteq> []"
    by (auto simp: strict_prefix_def prefix_def)
  then show "isSubArray item parent"
    by (auto simp: isSubArray_def list_all_iff nth_append)
qed

lemma checked_iff: "checked selected p \<longleftrightarrow> p \<in> set selected"
  by (auto simp: checked_def list_ex_iff isArraysEqual_iff)

lemma isChildSelected_iff:
  "isChildSelected selected p \<longleftrightarrow> (\<exists>c\<in>set selected. strict_prefix p c)"
  by (simp add: isChildSelected_def list_ex_iff isSubArray_iff)

lemma path_distinct_iff: "path_distinct ps \<longleftrightarrow> distinct ps"
  by (induction ps) (auto simp: list_ex_iff isArraysEqual_iff)

text \<open>
  Claim C4, as the program has it. For every selected list and path \<open>p\<close>, toggling \<open>p\<close> on
  twice gives the same set of elements as toggling it on once, while the list itself
  holds \<open>p\<close> once more: \<open>setSelected\<close> appends without looking for the path. A list
  without two path-equal elements stays so through a toggle-on of a path that is not
  checked in it, and through every toggle-off.
\<close>

theorem setSelected_on_twice:
  "set (setSelected (setSelected s p True) p True) = set (setSelected s p True) \<and>
   setSelected (setSelected s p True) p True = setSelected s p True @ [p] \<and>
   (path_distinct s \<and> \<not> checked s p \<longrightarrow> path_distinct (setSelected s p True)) \<and>
   (path_distinct s \<longrightarrow> path_distinct (setSelected s p False))"
  by (auto simp: setSelected_def path_distinct_iff checked_iff)

theorem setSelected_on_twice_witness:
  "path_distinct [[''A'']] \<and> \<not> checked [[''A'']] [''B''] \<and>
   path_distinct (setSelected [[''A'']] [''B''] True) \<and>
   path_distinct (setSelected [[''A'']] [''B''] False) \<and>
   set (setSelected (setSelected [[''A'']] [''B''] True) [''B''] True)
     = set (setSelected [[''A'']] [''B''] True)"
  using setSelected_on_twice [of "[[''A'']]" "[''B'']"]
  by (simp add: checked_def isArraysEqual_def setSelected_def)

text \<open>
  The second half of claim C4 as it is stated fails: from the empty list, toggling the
  path \<open>[A]\<close> on twice leaves two path-equal elements.
\<close>

theorem setSelected_on_twice_counterexample:
  "path_distinct [] \<and>
   \<not> path_distinct (setSelected (setSelected [] [''A''] True) [''A''] True)"
  by (simp add: setSelected_def isArraysEqual_def)

text \<open>
  Claim C6. For every selected list and path \<open>p\<close>, toggling \<open>p\<close> on and then off gives
  the original list without its elements path-equal to \<open>p\<close>: as a set of paths, the
  original set with \<open>p\<close> removed, whether or not \<open>p\<close> was in it; \<open>p\<close> is then unchecked.
\<close>

theorem setSelected_on_then_off:
  "setSelected (setSelected s p True) p False = filter (\<lambda>q. \<not> isArraysEqual q p) s \<and>
   set (setSelected (setSelected s p True) p False) = set s - {p} \<and>
   \<not> checked (setSelected (setSelected s p True) p False) p"
  by (auto simp: setSelected_def isArraysEqual_iff checked_iff)

text \<open>
  Claim C7. For every selected list and path, the callback sets the checkbox's
  \<open>indeterminate\<close> property to: the path is not checked and some selected path is a
  strict descendant of it. So checked and indeterminate are never both true, and a path
  that is itself selected is never indeterminate. Checked means: the path equals some
  element of the list.
\<close>

theorem checked_indeterminate_exclusive:
  "\<exists>el'. setIndeterminate (checked sel p) (isChildSelected sel p) (Some el) = Some el' \<and>
     (indeterminate el' \<longleftrightarrow> \<not> checked sel p \<and> (\<exists>c\<in>set sel. strict_prefix p c)) \<and>
     \<not> (checked sel p \<and> indeterminate el') \<and>
     (p \<in> set sel \<longrightarrow> \<not> indeterminate el') \<and>
     (checked sel p \<longleftrightarrow> (\<exists>c\<in>set sel. c = p))"
  by (auto simp: setIndeterminate_def checked_iff isChildSelected_iff)

theorem checked_indeterminate_exclusive_witness:
  "\<exists>el'. setIndeterminate (checked [[''A'', ''A2'', ''A2a'']] [''A'', ''A2'', ''A2a''])
            (isChildSelected [[''A'', ''A2'', ''A2a'']] [''A'', ''A2'', ''A2a''])
            (Some \<lparr>indeterminate = True\<rparr>) = Some el' \<and>
     [''A'', ''A2'', ''A2a''] \<in> set [[''A'', ''A2'', ''A2a'']] \<and> \<not> indeterminate el'"
  using checked_indeterminate_exclusive
    [of "[[''A'', ''A2'', ''A2a'']]" "[''A'', ''A2'', ''A2a'']" "\<lparr>indeterminate = True\<rparr>"]
  by auto

section \<open>Flattening is pre-order traversal\<close>

lemma fold_visitItem_append:
  assumes "\<And>t acc. t \<in> set ts \<Longrightarrow> visitItem t acc = acc @ preorder t"
  shows "fold visitItem ts acc = acc @ concat (map preorder ts)"
  using assms by (induction ts arbitrary: acc) simp_all

lemma visitItem_preorder: "visitItem t acc = acc @ preorder t"
proof (induction t acc rule: visitItem.induct)
  case (1 l p k cs c acc)
  show ?case
    using fold_visitItem_append [of "case cs of None \<Rightarrow> [] | Some xs \<Rightarrow> xs"] "1.IH"
    by simp
qed

lemma flatten_preorder: "flatten items = concat (map preorder items)"
  unfolding flatten_def using fold_visitItem_append [of items "[]"] visitItem_preorder by simp

lemma length_preorder: "length (preorder t) = node_count t"
proof (induction t rule: preorder.induct)
  case (1 l p k cs c)
  let ?kids = "case cs of None \<Rightarrow> [] | Some ys \<Rightarrow> ys"
  have h: "map (\<lambda>x. length (preorder x)) ?kids = map node_count ?kids"
    using "1.IH" by (intro map_cong) auto
  show ?case by (simp add: length_concat comp_def h)
qed

lemma map_fst_with_level: "map fst (with_level n t) = preorder t"
proof (induction n t rule: with_level.induct)
  case (1 n l p k cs c)
  let ?kids = "case cs of None \<Rightarrow> [] | Some ys \<Rightarrow> ys"
  have h: "map (\<lambda>x. map fst (with_level (n + 1) x)) ?kids = map preorder ?kids"
    using "1.IH" by (intro map_cong) auto
  show ?case by (simp add: map_concat comp_def h)
qed

lemma depth_consistent_with_level:
  "depth_consistent n t \<Longrightarrow> list_all (\<lambda>(it, m). depth it = m) (with_level n t)"
proof (induction n t rule: with_level.induct)
  case (1 n l p k cs c)
  then show ?case
    by (auto simp: list_all_iff)
qed

lemma flatten_Cons:
  "flatten (item # rest) = item # flatten (children_or_empty item) @ flatten rest"
  by (cases item) (simp add: flatten_preorder children_or_empty_def)

text \<open>
  Claim C5. For every forest, \<open>flatten\<close> returns as many entries as the forest has nodes,
  in pre-order: a root, then the flattening of its children, then the flattening of the
  roots after it. The entries are the nodes themselves, so every \<open>depth\<close> field is the
  one of the source; where the source's \<open>depth\<close> fields are consistent with the nesting,
  every entry's \<open>depth\<close> is the nesting level of its node.
\<close>

theorem flatten_is_preorder:
  "length (flatten items) = sum_list (map node_count items) \<and>
   flatten items = concat (map preorder items) \<and>
   flatten (item # rest) = item # flatten (children_or_empty item) @ flatten rest \<and>
   map fst (concat (map (with_level 0) items)) = flatten items \<and>
   (list_all (depth_consistent 0) items \<longrightarrow>
      list_all (\<lambda>(it, m). depth it = m) (concat (map (with_level 0) items)))"
proof -
  have a: "length (flatten items) = sum_list (map node_count items)"
    by (simp add: flatten_preorder length_concat comp_def length_preorder)
  have b: "map fst (concat (map (with_level 0) items)) = flatten items"
    by (simp add: flatten_preorder map_concat comp_def map_fst_with_level)
  have c: "list_all (\<lambda>(it, m). depth it = m) (concat (map (with_level 0) items))"
    if "list_all (depth_consistent 0) items"
    using that depth_consistent_with_level by (fastforce simp: list_all_iff)
  from a b c flatten_preorder flatten_Cons show ?thesis by blast
qed

theorem flatten_is_preorder_witness:
  "list_all (depth_consistent 0) [example_tree] \<and>
   list_all (\<lambda>(it, m). depth it = m) (concat (map (with_level 0) [example_tree])) \<and>
   length (flatten [example_tree]) = 2"
proof -
  have wf: "list_all (depth_consistent 0) [example_tree]"
    by (simp add: example_tree_def)
  have "length (flatten [example_tree]) = sum_list (map node_count [example_tree])"
    using flatten_is_preorder [of "[example_tree]"] by blast
  then have len: "length (flatten [example_tree]) = 2"
    by (simp add: example_tree_def)
  from wf len flatten_is_preorder [of "[example_tree]"] show ?thesis by blast
qed

section \<open>Resolved options\<close>

text \<open>
  Claim C8. \<open>maxUsagesReached\<close> is: if \<open>maxUsages\<close> is supplied and not zero then
  \<open>length selected \<ge> maxUsages\<close>, else false. For a cap of 2 it is true for a selected
  list of length 2 and false for one of length 1. The other options are passed on as
  they are.
\<close>

theorem maxUsagesReached_value:
  "maxUsagesReached (optionsWithMaxUsages options selected) =
     Some (case maxUsages options of
             None \<Rightarrow> False
           | Some m \<Rightarrow> if m \<noteq> 0 then m \<le> int (length selected) else False) \<and>
   (maxUsages options = Some 2 \<and> length selected = 2 \<longrightarrow>
      maxUsagesReached (optionsWithMaxUsages options selected) = Some True) \<and>
   (maxUsages options = Some 2 \<and> length selected = 1 \<longrightarrow>
      maxUsagesReached (optionsWithMaxUsages options selected) = Some False) \<and>
   TaxonomyOptions.truncate (optionsWithMaxUsages options selected) = options"
  by (auto simp: optionsWithMaxUsages_def truthy_num_def TaxonomyOptions.truncate_def
      split: option.splits)

theorem maxUsagesReached_value_witness:
  "maxUsages example_options = Some 2 \<and> length [[''A''], [''B'']] = 2 \<and>
   maxUsagesReached (optionsWithMaxUsages example_options [[''A''], [''B'']]) = Some True \<and>
   length (setSelected [[''A''], [''B'']] [''B''] False) = 1 \<and>
   maxUsagesReached
     (optionsWithMaxUsages example_options (setSelected [[''A''], [''B'']] [''B''] False))
     = Some False"
  using maxUsagesReached_value [of example_options "[[''A''], [''B'']]"]
    maxUsagesReached_value [of example_options "setSelected [[''A''], [''B'']] [''B''] False"]
  by (simp add: example_options_def setSelected_def isArraysEqual_def)

text \<open>
  Claim C10. With \<open>maxUsages = 0\<close> the flag \<open>maxUsagesReached\<close> is false for every selected
  list, so the cap never is the reason an item is disabled: an item is then disabled
  only by the leaf-only rule.
\<close>

theorem maxUsages_zero_never_reached:
  "maxUsages options = Some 0 \<Longrightarrow>
     maxUsagesReached (optionsWithMaxUsages options selected) = Some False \<and>
     \<not> limitReached (optionsWithMaxUsages options selected) selected item \<and>
     (disabled (optionsWithMaxUsages options selected) selected item \<longleftrightarrow>
        onlyLeafsAllowed (optionsWithMaxUsages options selected) item)"
  by (simp add: optionsWithMaxUsages_def truthy_num_def limitReached_def disabled_def
      truthy_bool_def)

theorem maxUsages_zero_never_reached_witness:
  "maxUsages (example_options\<lparr>maxUsages := Some 0\<rparr>) = Some 0 \<and>
   maxUsagesReached
     (optionsWithMaxUsages (example_options\<lparr>maxUsages := Some 0\<rparr>) [[''A''], [''B'']])
     = Some False \<and>
   \<not> limitReached
     (optionsWithMaxUsages (example_options\<lparr>maxUsages := Some 0\<rparr>) [[''A''], [''B'']])
     [[''A''], [''B'']] (TaxonomyItem ''C'' [''C''] 0 None None)"
  using maxUsages_zero_never_reached
    [of "example_options\<lparr>maxUsages := Some 0\<rparr>" "[[''A''], [''B'']]"
        "TaxonomyItem ''C'' [''C''] 0 None None"]
  by (simp add: example_options_def)

section \<open>Leaf-only selection\<close>

lemma includes_str_iff: "includes_str s sub \<longleftrightarrow> sublist sub s"
  by (induction s) (auto simp: sublist_Cons_right)

text \<open>Under \<open>leafsOnly\<close>, an item given to \<^verbatim>\<open>Item\<close> with a non-empty array of children is disabled.\<close>

lemma leafsOnly_parent_disabled:
  "truthy_bool (leafsOnly options) \<Longrightarrow> hasChilds item \<Longrightarrow>
     disabled (optionsWithMaxUsages options selected) selected item"
  by (simp add: disabled_def onlyLeafsAllowed_def optionsWithMaxUsages_def)

text \<open>
  Claim C9. Under \<open>leafsOnly\<close> only paths of nodes without children should ever be
  selected. With the tree \<open>Animals > [Birds]\<close> and nothing selected, the parent
  \<open>Animals\<close> is disabled when the source forest is rendered. With the text \<open>nim\<close> in the
  search field, \<open>Animals\<close> matches and \<open>Birds\<close> does not; the forest rendered is the copy
  of \<open>Animals\<close> with an empty array of children, whose checkbox is not disabled; its
  change event calls \<open>setSelected\<close> with the path of \<open>Animals\<close>. The selected list
  reached holds the path of a node that has a child.
\<close>

theorem leafsOnly_search_selects_parent:
  "truthy_bool (leafsOnly example_options) \<and> hasChilds animals \<and>
   disabled (optionsWithMaxUsages example_options []) [] animals \<and>
   Dropdown_list (toLocaleLowerCase ''nim'') [animals] = Inr [spread_children animals []] \<and>
   \<not> disabled (optionsWithMaxUsages example_options []) [] (spread_children animals []) \<and>
   setSelected [] (path (spread_children animals [])) True = [[''Animals'']] \<and>
   reachable example_options [animals] [] [[''Animals'']] \<and>
   \<not> list_all (leaf_path [animals]) [[''Animals'']]"
proof -
  let ?copy = "spread_children animals []"
  have lo: "truthy_bool (leafsOnly example_options)"
    by (simp add: example_options_def truthy_bool_def)
  have hc: "hasChilds animals"
    by (simp add: animals_def hasChilds_def)
  have dis: "disabled (optionsWithMaxUsages example_options []) [] animals"
    using leafsOnly_parent_disabled [OF lo hc] .
  have dl: "Dropdown_list (toLocaleLowerCase ''nim'') [animals] = Inr [?copy]"
    by (simp add: Dropdown_list_def Dropdown_predicate_def toLocaleLowerCase_def
        less_eq_char_def animals_def flatten_def filterTreeByPredicate_def spread_children_def)
  have mem: "?copy \<in> set (flatten [?copy])"
    by (simp add: flatten_def animals_def spread_children_def)
  have en: "\<not> disabled (optionsWithMaxUsages example_options []) [] ?copy"
    by (simp add: disabled_def onlyLeafsAllowed_def limitReached_def hasChilds_def
        optionsWithMaxUsages_def example_options_def truthy_bool_def truthy_num_def
        spread_children_def)
  have sel: "setSelected [] (path ?copy) True = [[''Animals'']]"
    by (simp add: setSelected_def spread_children_def animals_def)
  have "reachable example_options [animals] [] (setSelected [] (path ?copy) True)"
    by (rule reachable.toggle [OF reachable.start dl mem en])
  then have re: "reachable example_options [animals] [] [[''Animals'']]"
    by (simp only: sel)
  have nl: "\<not> list_all (leaf_path [animals]) [[''Animals'']]"
    by (simp add: leaf_path_def flatten_def animals_def hasChilds_def isArraysEqual_def)
  from lo hc dis dl en sel re nl show ?thesis by blast
qed

section \<open>The filtered forest\<close>

text \<open>
  In its subtree-boundary branch the loop reads \<^verbatim>\<open>childs[d - 1]\<close> without the test that
  the other branch makes (\<^verbatim>\<open>if (!childs[d]) childs[d] = []\<close>). The body throws exactly
  there, when that entry was never assigned.
\<close>

lemma loop_body_throws_iff:
  "loop_body predicate item (roots, childs, d) = Inl TypeError \<longleftrightarrow>
     depth item = d \<and> d \<noteq> 0 \<and> childs (d - 1) = None"
  by (auto simp: Let_def split: option.splits)

text \<open>
  Claim C2. For the tree \<open>A > [A1, A2 > [A2a]]\<close> and the predicate that matches the label
  \<open>A2a\<close>, the specification expects the forest \<open>[A > [A2 > [A2a]]]\<close>. The program does
  not return: after \<open>A2a\<close> is stored in \<^verbatim>\<open>childs[1]\<close>, the entry \<open>A2\<close> is a subtree boundary
  and \<^verbatim>\<open>childs[0]\<close> is undefined.
\<close>

theorem scenario_A2a_throws:
  "flatten [scenario_A] = [scenario_A, scenario_A1, scenario_A2, scenario_A2a] \<and>
   prune_forest (\<lambda>item. label item = ''A2a'') [scenario_A]
     = [spread_children scenario_A [spread_children scenario_A2 [spread_children scenario_A2a []]]] \<and>
   filterTreeByPredicate (flatten [scenario_A]) (\<lambda>item. label item = ''A2a'') = Inl TypeError"
  by (simp add: scenario_defs flatten_def filterTreeByPredicate_def spread_children_def
      prune_forest_def)

text \<open>
  Claim C3. On the pre-order sequence of the chain \<open>A > B > C\<close>, whose depth fields are
  consistent, with the predicate that matches \<open>C\<close>: the last entry stores \<open>C\<close> in
  \<^verbatim>\<open>childs[1]\<close> and sets \<open>d = 1\<close>; at the entry \<open>B\<close> the boundary branch reads
  \<^verbatim>\<open>childs[0]\<close>, which is undefined, and the call throws.
\<close>

theorem chain_boundary_read_undefined:
  "list_all (depth_consistent 0) [chain_A] \<and>
   flatten [chain_A] = [chain_A, chain_B, chain_C] \<and>
   loop_body (\<lambda>item. label item = ''C'') chain_C ([], Map.empty, - 1)
     = Inr ([], [1 \<mapsto> [spread_children chain_C []]], 1) \<and>
   [(1::int) \<mapsto> [spread_children chain_C []]] (1 - 1) = None \<and>
   loop_body (\<lambda>item. label item = ''C'') chain_B ([], [1 \<mapsto> [spread_children chain_C []]], 1)
     = Inl TypeError \<and>
   filterTreeByPredicate (flatten [chain_A]) (\<lambda>item. label item = ''C'') = Inl TypeError"
  by (simp add: chain_defs flatten_def filterTreeByPredicate_def spread_children_def)

text \<open>
  Claim C1. On the forest \<open>[P > Q > R, S]\<close>, whose depth fields are consistent, with the
  predicate that matches \<open>R\<close> and \<open>S\<close>: the nodes to keep are the matching ones and their
  ancestors, in order, \<open>[P > [Q > [R]], S]\<close>; the program throws instead of returning
  that forest.
\<close>

theorem forest_match_throws:
  "list_all (depth_consistent 0) [forest_P, forest_S] \<and>
   prune_forest (\<lambda>item. label item = ''R'' \<or> label item = ''S'') [forest_P, forest_S]
     = [spread_children forest_P [spread_children forest_Q [spread_children forest_R []]],
        spread_children forest_S []] \<and>
   filterTreeByPredicate (flatten [forest_P, forest_S])
     (\<lambda>item. label item = ''R'' \<or> label item = ''S'') = Inl TypeError"
  by (simp add: forest_defs flatten_def filterTreeByPredicate_def spread_children_def
      prune_forest_def)

subsection \<open>What the loop returns when it does not throw\<close>

text \<open>
  The forest is visited backwards: the roots from the last to the first, and for each
  root its children (backwards) before the root itself. Whenever the visit of a forest
  with consistent \<open>depth\<close> fields ends without a throw, it has put the kept part of that
  forest in front of what waits for the parent.
\<close>

lemma run_append:
  "run p (xs @ ys) st = (case run p xs st of Inl e \<Rightarrow> Inl e | Inr st' \<Rightarrow> run p ys st')"
  by (induction xs arbitrary: st) (auto split: sum.splits)

lemma loop_run: "n \<le> length flat \<Longrightarrow> loop p flat n st = run p (rev (take n flat)) st"
proof (induction n arbitrary: st)
  case 0
  then show ?case by simp
next
  case (Suc n)
  then have "take (Suc n) flat = take n flat @ [flat ! n]"
    by (simp add: take_Suc_conv_app_nth)
  with Suc show ?case by (auto split: sum.splits)
qed

lemma pending_ok_attached:
  "0 \<le> k \<Longrightarrow> pending_ok k st \<Longrightarrow> attached k F st st' \<Longrightarrow> pending_ok k st'"
  by (cases st; cases st') (auto simp: pending_ok_def attached_def split: if_splits)

lemma attached_trans:
  "0 \<le> k \<Longrightarrow> pending_ok k st \<Longrightarrow> attached k F1 st st1 \<Longrightarrow> attached k F2 st1 st2 \<Longrightarrow>
     attached k (F2 @ F1) st st2"
  by (cases st; cases st1; cases st2)
     (auto simp: pending_ok_def attached_def split: if_splits)

lemma tree_step:
  assumes "0 \<le> k" "depth t = k" "pending_ok k st" "attached (k + 1) G st st1"
    "loop_body p t st1 = Inr st2"
  shows "attached k (if p t \<or> G \<noteq> [] then [spread_children t G] else []) st st2"
  using assms
  by (cases st; cases st1; cases st2)
     (auto simp: pending_ok_def attached_def Let_def split: if_splits option.splits)

lemma prune_spread:
  "prune p t = spread_children t (prune_forest p (children_or_empty t))"
  by (cases t) (simp add: spread_children_def prune_forest_def children_or_empty_def)

lemma keeps_iff:
  "keeps p t \<longleftrightarrow> p t \<or> prune_forest p (children_or_empty t) \<noteq> []"
  by (cases t) (auto simp: prune_forest_def children_or_empty_def list_ex_iff filter_empty_conv)

lemma rev_preorder:
  "rev (preorder t) = rev (concat (map preorder (children_or_empty t))) @ [t]"
  by (cases t) (simp add: children_or_empty_def)

lemma forest_run_from_trees:
  assumes trees: "\<And>t st st'. t \<in> set ts \<Longrightarrow> pending_ok k st \<Longrightarrow>
      run p (rev (preorder t)) st = Inr st' \<Longrightarrow>
      attached k (if keeps p t then [prune p t] else []) st st'"
    and k: "0 \<le> k"
  shows "pending_ok k st \<Longrightarrow> run p (rev (concat (map preorder ts))) st = Inr st' \<Longrightarrow>
    attached k (prune_forest p ts) st st'"
  using trees
proof (induction ts arbitrary: st')
  case Nil
  then show ?case by (cases st) (simp add: prune_forest_def attached_def)
next
  case (Cons t ts)
  from Cons.prems(2) obtain st1 where
    r1: "run p (rev (concat (map preorder ts))) st = Inr st1" and
    r2: "run p (rev (preorder t)) st1 = Inr st'"
    by (auto simp: run_append split: sum.splits)
  have a1: "attached k (prune_forest p ts) st st1"
    using Cons.IH [OF Cons.prems(1) r1] Cons.prems(3) by simp
  have ok1: "pending_ok k st1"
    using pending_ok_attached [OF k Cons.prems(1) a1] .
  have a2: "attached k (if keeps p t then [prune p t] else []) st1 st'"
    using Cons.prems(3) [OF _ ok1 r2] by simp
  have "prune_forest p (t # ts) = (if keeps p t then [prune p t] else []) @ prune_forest p ts"
    by (simp add: prune_forest_def)
  with attached_trans [OF k Cons.prems(1) a1 a2] show ?case by simp
qed

lemma tree_run:
  "depth_consistent k t \<Longrightarrow> 0 \<le> k \<Longrightarrow> pending_ok k st \<Longrightarrow>
   run p (rev (preorder t)) st = Inr st' \<Longrightarrow>
   attached k (if keeps p t then [prune p t] else []) st st'"
proof (induction k t arbitrary: st st' rule: depth_consistent.induct)
  case (1 n l pth k cs c)
  let ?t = "TaxonomyItem l pth k cs c"
  let ?kids = "children_or_empty ?t"
  have kids_eq: "?kids = (case cs of None \<Rightarrow> [] | Some xs \<Rightarrow> xs)"
    by (simp add: children_or_empty_def)
  have dep: "depth ?t = n" and wf: "list_all (depth_consistent (n + 1)) ?kids"
    using "1.prems"(1) by (simp_all add: children_or_empty_def)
  from "1.prems"(4) obtain st1 where
    r1: "run p (rev (concat (map preorder ?kids))) st = Inr st1" and
    r2: "loop_body p ?t st1 = Inr st'"
    by (auto simp: rev_preorder run_append simp del: preorder.simps loop_body.simps
        split: sum.splits)
  have ok: "pending_ok (n + 1) st"
    using "1.prems"(3) by (cases st) (auto simp: pending_ok_def)
  have "attached (n + 1) (prune_forest p ?kids) st st1"
  proof (rule forest_run_from_trees [OF _ _ ok r1])
    show "0 \<le> n + 1" using "1.prems"(2) by simp
  next
    fix x s s'
    assume x: "x \<in> set ?kids" and "pending_ok (n + 1) s"
      and "run p (rev (preorder x)) s = Inr s'"
    moreover have "depth_consistent (n + 1) x"
      using wf x by (simp add: list_all_iff)
    ultimately show "attached (n + 1) (if keeps p x then [prune p x] else []) s s'"
      using "1.IH" [of x s s'] "1.prems"(2) by (simp add: kids_eq)
  qed
  from tree_step [OF "1.prems"(2) dep "1.prems"(3) this r2]
  show ?case
    by (simp only: keeps_iff [of p ?t] prune_spread [of p ?t])
qed

lemma forest_run:
  assumes "list_all (depth_consistent k) ts" "0 \<le> k" "pending_ok k st"
    "run p (rev (concat (map preorder ts))) st = Inr st'"
  shows "attached k (prune_forest p ts) st st'"
  using assms tree_run [of k _ _ p]
  by (intro forest_run_from_trees [of ts k p st st']) (auto simp: list_all_iff)

text \<open>
  On the flat sequence of a forest with consistent \<open>depth\<close> fields, a call that returns
  gives the forest of the matching nodes and their ancestors, in order.
\<close>

lemma filterTreeByPredicate_returns_pruned:
  assumes "list_all (depth_consistent 0) items"
    and "filterTreeByPredicate (flatten items) predicate = Inr forest"
  shows "forest = prune_forest predicate items"
proof -
  let ?init = "([], Map.empty, - 1) :: filter_state"
  from assms(2) obtain childs d where
    r: "run predicate (rev (concat (map preorder items))) ?init = Inr (forest, childs, d)"
    by (auto simp: filterTreeByPredicate_def loop_run flatten_preorder split: sum.splits)
  have "pending_ok 0 ?init" by (simp add: pending_ok_def)
  from forest_run [OF assms(1) _ this r]
  show ?thesis by (auto simp: attached_def split: if_splits)
qed

lemma filterTreeByPredicate_returns_pruned_example:
  "list_all (depth_consistent 0) [example_tree] \<and>
   filterTreeByPredicate (flatten [example_tree]) (\<lambda>item. label item = ''A1'')
     = Inr (prune_forest (\<lambda>item. label item = ''A1'') [example_tree]) \<and>
   prune_forest (\<lambda>item. label item = ''A1'') [example_tree]
     = [spread_children example_tree
          [spread_children (TaxonomyItem ''A1'' [''A'', ''A1''] 1 None None) []]]"
  by (simp add: example_tree_def flatten_def filterTreeByPredicate_def spread_children_def
      prune_forest_def)

text \<open>
  The call returns whenever no entry has a negative depth and every matching entry is
  at depth 0 or 1: the loop then never waits for a level other than 0, and the boundary
  branch at level 0 does not read \<^verbatim>\<open>childs[d - 1]\<close>.
\<close>

lemma run_returns_shallow:
  assumes "\<forall>item\<in>set xs. 0 \<le> depth item \<and> (predicate item \<longrightarrow> depth item \<le> 1)"
    and "d = - 1 \<or> d = 0"
  shows "\<exists>roots' childs' d'. run predicate xs (roots, childs, d) = Inr (roots', childs', d')"
  using assms
proof (induction xs arbitrary: roots childs d)
  case Nil
  then show ?case by simp
next
  case (Cons item xs)
  have "\<exists>r c e. loop_body predicate item (roots, childs, d) = Inr (r, c, e) \<and> (e = - 1 \<or> e = 0)"
    using Cons.prems by (auto simp: Let_def split: option.splits)
  then obtain r c e where
    b: "loop_body predicate item (roots, childs, d) = Inr (r, c, e)" and e: "e = - 1 \<or> e = 0"
    by blast
  from Cons.IH [of e r c] Cons.prems(1) e b show ?case
    by (simp del: loop_body.simps)
qed

lemma filterTreeByPredicate_returns_shallow:
  assumes "\<forall>item\<in>set flat. 0 \<le> depth item \<and> (predicate item \<longrightarrow> depth item \<le> 1)"
  shows "\<exists>forest. filterTreeByPredicate flat predicate = Inr forest"
proof -
  have "\<forall>item\<in>set (rev flat). 0 \<le> depth item \<and> (predicate item \<longrightarrow> depth item \<le> 1)"
    using assms by simp
  from run_returns_shallow [OF this, of "- 1" "[]" Map.empty]
  show ?thesis
    by (auto simp: filterTreeByPredicate_def loop_run)
qed

text \<open>
  A node that matches a search while none of its descendants does is rendered with an
  empty array of children, so \<open>hasChilds\<close> is false of the rendered item.
\<close>

lemma filtered_parent_rendered_as_leaf:
  "filterTreeByPredicate (flatten [example_tree]) (\<lambda>item. label item = ''A'')
     = Inr [spread_children example_tree []] \<and>
   hasChilds example_tree \<and> \<not> hasChilds (spread_children example_tree [])"
  by (simp add: example_tree_def flatten_def filterTreeByPredicate_def spread_children_def
      hasChilds_def)

end
